theory Spec2Isabelle
  imports Complex_Main "HOL-Library.Product_Lexorder"
begin

section \<open>Dates and times\<close>

text \<open>
  A Python \<^verbatim>\<open>datetime\<close> in UTC, held field by field as the library holds it.
  All datetimes of the program are timezone-aware UTC values (\<^verbatim>\<open>USE_TZ = True\<close>,
  \<^verbatim>\<open>TIME_ZONE = 'UTC'\<close>), so comparing two of them compares their fields
  lexicographically.
\<close>

record datetime =
  year :: nat
  month :: nat
  day :: nat
  hour :: nat
  minute :: nat
  second :: nat
  microsecond :: nat

datatype error =
    ValueError
  | OverflowError
  | TypeError
  | DoesNotExist
  | MultipleObjectsReturned

definition is_leap :: "nat \<Rightarrow> bool" where
  "is_leap y = (y mod 4 = 0 \<and> (y mod 100 \<noteq> 0 \<or> y mod 400 = 0))"

definition days_in_month :: "nat \<Rightarrow> nat \<Rightarrow> nat" where
  "days_in_month y m =
     (if m = 2 then (if is_leap y then 29 else 28)
      else if m = 4 \<or> m = 6 \<or> m = 9 \<or> m = 11 then 30
      else 31)"

text \<open>The range check the \<^verbatim>\<open>datetime\<close> constructor makes (MINYEAR = 1, MAXYEAR = 9999).\<close>

definition valid_datetime :: "datetime \<Rightarrow> bool" where
  "valid_datetime d =
     (1 \<le> year d \<and> year d \<le> 9999 \<and> 1 \<le> month d \<and> month d \<le> 12
      \<and> 1 \<le> day d \<and> day d \<le> days_in_month (year d) (month d)
      \<and> hour d < 24 \<and> minute d < 60 \<and> second d < 60 \<and> microsecond d < 1000000)"

text \<open>\<^verbatim>\<open>datetime.replace\<close> builds a new datetime and raises ValueError when a field is
  out of range; the argument is the datetime with the fields already replaced.\<close>

definition replace :: "datetime \<Rightarrow> error + datetime" where
  "replace d = (if valid_datetime d then Inr d else Inl ValueError)"

text \<open>\<^verbatim>\<open>d - timedelta(seconds=1)\<close>: the borrow runs from the seconds up to the year,
  the microseconds stay; below year 1 the library raises OverflowError.\<close>

definition minus_one_second :: "datetime \<Rightarrow> error + datetime" where
  "minus_one_second d =
     (if 0 < second d then Inr (d\<lparr>second := second d - 1\<rparr>)
      else if 0 < minute d then Inr (d\<lparr>minute := minute d - 1, second := 59\<rparr>)
      else if 0 < hour d then Inr (d\<lparr>hour := hour d - 1, minute := 59, second := 59\<rparr>)
      else if 1 < day d
        then Inr (d\<lparr>day := day d - 1, hour := 23, minute := 59, second := 59\<rparr>)
      else if 1 < month d
        then Inr (d\<lparr>month := month d - 1, day := days_in_month (year d) (month d - 1),
                    hour := 23, minute := 59, second := 59\<rparr>)
      else if 1 < year d
        then Inr (d\<lparr>year := year d - 1, month := 12, day := 31,
                    hour := 23, minute := 59, second := 59\<rparr>)
      else Inl OverflowError)"

definition dt_key :: "datetime \<Rightarrow> nat \<times> nat \<times> nat \<times> nat \<times> nat \<times> nat \<times> nat" where
  "dt_key d = (year d, month d, day d, hour d, minute d, second d, microsecond d)"

text \<open>\<^verbatim>\<open>a <= b\<close> on datetimes.\<close>

definition dt_le :: "datetime \<Rightarrow> datetime \<Rightarrow> bool" where
  "dt_le a b = (dt_key a \<le> dt_key b)"

section \<open>The billing period of a usage record\<close>

text \<open>
  The period computation at the head of \<^verbatim>\<open>Usage.get_or_create_current\<close>
  (models.py, lines 153 to 164), as a function of the clock reading \<open>now\<close>:
  \<^verbatim>\<open>
  period_start = now.replace(day=1, hour=0, minute=0, second=0, microsecond=0)
  if period_start.month == 12:
      period_end = period_start.replace(year=period_start.year + 1, month=1)
  else:
      period_end = period_start.replace(month=period_start.month + 1)
  period_end = period_end - timedelta(seconds=1)
  \<close>
\<close>

definition current_period :: "datetime \<Rightarrow> error + datetime \<times> datetime" where
  "current_period now =
     (case replace (now\<lparr>day := 1, hour := 0, minute := 0, second := 0, microsecond := 0\<rparr>) of
        Inl e \<Rightarrow> Inl e
      | Inr period_start \<Rightarrow>
          (case (if month period_start = 12
                 then replace (period_start\<lparr>year := year period_start + 1, month := 1\<rparr>)
                 else replace (period_start\<lparr>month := month period_start + 1\<rparr>)) of
             Inl e \<Rightarrow> Inl e
           | Inr next_month \<Rightarrow>
               (case minus_one_second next_month of
                  Inl e \<Rightarrow> Inl e
                | Inr period_end \<Rightarrow> Inr (period_start, period_end))))"


text \<open>Days since 1970-01-01 to a civil date (proleptic Gregorian calendar), and
  \<^verbatim>\<open>datetime.fromtimestamp(ts, tz=timezone.utc)\<close> on an integer count of seconds.
  A missing value (\<^verbatim>\<open>None\<close>) raises TypeError, a year outside 1..9999 an error of
  the range check.\<close>

definition civil_from_days :: "int \<Rightarrow> int \<times> int \<times> int" where
  "civil_from_days z0 =
     (let z = z0 + 719468;
          era = z div 146097;
          doe = z - era * 146097;
          yoe = (doe - doe div 1460 + doe div 36524 - doe div 146096) div 365;
          doy = doe - (365 * yoe + yoe div 4 - yoe div 100);
          mp = (5 * doy + 2) div 153;
          d = doy - (153 * mp + 2) div 5 + 1;
          m = (if mp < 10 then mp + 3 else mp - 9);
          y = yoe + era * 400 + (if m \<le> 2 then 1 else 0)
      in (y, m, d))"

definition fromtimestamp :: "int option \<Rightarrow> error + datetime" where
  "fromtimestamp ts =
     (case ts of
        None \<Rightarrow> Inl TypeError
      | Some t \<Rightarrow>
          (let (y, m, d) = civil_from_days (t div 86400); r = t mod 86400
           in if 1 \<le> y \<and> y \<le> 9999
              then Inr \<lparr>year = nat y, month = nat m, day = nat d,
                        hour = nat (r div 3600), minute = nat ((r mod 3600) div 60),
                        second = nat (r mod 60), microsecond = 0\<rparr>
              else Inl ValueError))"

section \<open>The data model\<close>

text \<open>
  The three models of \<^verbatim>\<open>apps/subscriptions/models.py\<close>. A user is its primary key.
  The columns \<^verbatim>\<open>created_at\<close> and \<^verbatim>\<open>updated_at\<close>, which Django maintains on its own,
  and the display columns of a plan that no service function reads
  (\<^verbatim>\<open>plan_type\<close>, the Stripe price and product ids, \<^verbatim>\<open>price\<close>, \<^verbatim>\<open>features\<close>,
  \<^verbatim>\<open>description\<close>) are left out.
\<close>

datatype Status = ACTIVE | TRIALING | PAST_DUE | CANCELED | UNPAID

record SubscriptionPlan =
  name :: string
  description_quota :: int
  is_active :: bool

record UserSubscription =
  sub_user :: nat
  plan :: nat
  stripe_subscription_id :: string
  stripe_customer_id :: string
  status :: Status
  current_period_start :: "datetime option"
  current_period_end :: "datetime option"
  trial_end :: "datetime option"
  cancel_at_period_end :: bool
  canceled_at :: "datetime option"

record Usage =
  pk :: nat
  user :: nat
  descriptions_generated :: int
  period_start :: datetime
  period_end :: datetime

text \<open>The mails of \<^verbatim>\<open>EmailService\<close> that the service layer sends: the addressee and,
  for the quota warning, the usage count it reports.\<close>

datatype mail =
    Subscription_cancelled nat
  | Payment_failed nat
  | Quota_warning nat int

text \<open>What an operation does to the outside, in the order it does it: rows inserted and
  rows written (with the object written), mails handed to the mail service, lines printed
  by an exception handler.\<close>

datatype event =
    Usage_created Usage
  | Usage_saved Usage
  | Subscription_saved UserSubscription
  | Mail_attempted mail
  | Printed string

text \<open>The database tables and the trace of events. The foreign key from a subscription
  to its plan is protected (\<^verbatim>\<open>on_delete=PROTECT\<close>), so the plan of a subscription always
  exists: \<open>plans\<close> is total on the keys in use.\<close>

record world =
  subscriptions :: "UserSubscription list"
  plans :: "nat \<Rightarrow> SubscriptionPlan"
  usages :: "Usage list"
  next_pk :: nat
  trace :: "event list"

text \<open>The environment of the service module: whether the import of the mail service
  succeeded (\<^verbatim>\<open>EMAIL_ENABLED\<close>), and for each mail whether the mail service delivers it or
  raises.\<close>

record env =
  EMAIL_ENABLED :: bool
  delivers :: "mail \<Rightarrow> bool"

text \<open>The persistent part of a world: the three tables.\<close>

definition persistent ::
  "world \<Rightarrow> UserSubscription list \<times> (nat \<Rightarrow> SubscriptionPlan) \<times> Usage list" where
  "persistent w = (subscriptions w, plans w, usages w)"

section \<open>The usage ledger\<close>

text \<open>The rows that \<^verbatim>\<open>get_or_create\<close> looks up:
  \<^verbatim>\<open>user=user, period_start__lte=now, period_end__gte=now\<close>.\<close>

definition current_usages :: "datetime \<Rightarrow> nat \<Rightarrow> Usage list \<Rightarrow> Usage list" where
  "current_usages now u rs =
     filter (\<lambda>r. user r = u \<and> dt_le (period_start r) now \<and> dt_le now (period_end r)) rs"

text \<open>\<^verbatim>\<open>Usage.get_or_create_current\<close> (models.py, lines 148 to 177). Django's
  \<^verbatim>\<open>get_or_create\<close> returns the one row that matches, creates a row from the defaults
  when none matches, and raises MultipleObjectsReturned when several do.\<close>

definition get_or_create_current :: "datetime \<Rightarrow> nat \<Rightarrow> world \<Rightarrow> (error + Usage) \<times> world" where
  "get_or_create_current now u w =
     (case current_period now of
        Inl e \<Rightarrow> (Inl e, w)
      | Inr (ps, pe) \<Rightarrow>
          (case current_usages now u (usages w) of
             [] \<Rightarrow>
               (let usage = \<lparr>pk = next_pk w, user = u, descriptions_generated = 0,
                             period_start = ps, period_end = pe\<rparr>
                in (Inr usage,
                    w\<lparr>usages := usages w @ [usage], next_pk := next_pk w + 1,
                      trace := trace w @ [Usage_created usage]\<rparr>))
           | [usage] \<Rightarrow> (Inr usage, w)
           | _ \<Rightarrow> (Inl MultipleObjectsReturned, w)))"

text \<open>\<^verbatim>\<open>usage.save()\<close>: the row with the primary key of the object takes the object's
  fields; a primary key without a row is inserted.\<close>

definition save_usage :: "Usage \<Rightarrow> world \<Rightarrow> world" where
  "save_usage usage w =
     w\<lparr>usages :=
         (if pk usage \<in> pk ` set (usages w)
          then map (\<lambda>r. if pk r = pk usage then usage else r) (usages w)
          else usages w @ [usage]),
       trace := trace w @ [Usage_saved usage]\<rparr>"

text \<open>\<^verbatim>\<open>hasattr(user, 'subscription')\<close> and \<^verbatim>\<open>user.subscription\<close>: the row of the
  one-to-one relation, if there is one.\<close>

definition subscription_of :: "world \<Rightarrow> nat \<Rightarrow> UserSubscription option" where
  "subscription_of w u = find (\<lambda>s. sub_user s = u) (subscriptions w)"

text \<open>\<^verbatim>\<open>Usage.get_remaining_quota\<close> (models.py, lines 184 to 194); \<^verbatim>\<open>float('inf')\<close> is
  \<open>Unlimited\<close>.\<close>

datatype remaining = Remaining int | Unlimited

definition get_remaining_quota :: "world \<Rightarrow> Usage \<Rightarrow> remaining" where
  "get_remaining_quota w usage =
     (case subscription_of w (user usage) of
        None \<Rightarrow> Remaining 0
      | Some subscription \<Rightarrow>
          (if description_quota (plans w (plan subscription)) = - 1 then Unlimited
           else Remaining (max 0 (description_quota (plans w (plan subscription))
                                   - descriptions_generated usage))))"

section \<open>The subscription service\<close>

text \<open>The payloads of the billing provider's events, each key as \<^verbatim>\<open>dict.get\<close> reads it:
  \<open>None\<close> where the key is missing or null; for \<^verbatim>\<open>cancel_at_period_end\<close>, which the
  provider sends as a boolean, \<open>None\<close> where the key is missing.\<close>

record subscription_data =
  sd_id :: "string option"
  sd_status :: "string option"
  sd_current_period_start :: "int option"
  sd_current_period_end :: "int option"
  sd_cancel_at_period_end :: "bool option"
  sd_canceled_at :: "int option"

record invoice_data =
  inv_subscription :: "string option"

text \<open>\<^verbatim>\<open>SubscriptionService._map_stripe_status\<close> (services.py, lines 206 to 218).\<close>

definition map_stripe_status :: "string option \<Rightarrow> Status" where
  "map_stripe_status stripe_status =
     (if stripe_status = Some ''active'' then ACTIVE
      else if stripe_status = Some ''trialing'' then TRIALING
      else if stripe_status = Some ''past_due'' then PAST_DUE
      else if stripe_status = Some ''canceled'' then CANCELED
      else if stripe_status = Some ''unpaid'' then UNPAID
      else CANCELED)"

text \<open>\<^verbatim>\<open>UserSubscription.objects.get(stripe_subscription_id=subscription_id)\<close>: the one row
  with that provider id; DoesNotExist when there is none (also for the id \<^verbatim>\<open>None\<close>, which
  no row has), MultipleObjectsReturned when there are several.\<close>

definition get_subscription :: "string option \<Rightarrow> world \<Rightarrow> error + UserSubscription" where
  "get_subscription subscription_id w =
     (case filter (\<lambda>s. Some (stripe_subscription_id s) = subscription_id) (subscriptions w) of
        [] \<Rightarrow> Inl DoesNotExist
      | [s] \<Rightarrow> Inr s
      | _ \<Rightarrow> Inl MultipleObjectsReturned)"

text \<open>\<^verbatim>\<open>subscription.save()\<close>. The relation to the user is one-to-one, so the user
  identifies the row.\<close>

definition save_subscription :: "UserSubscription \<Rightarrow> world \<Rightarrow> world" where
  "save_subscription subscription w =
     w\<lparr>subscriptions :=
         map (\<lambda>s. if sub_user s = sub_user subscription then subscription else s)
           (subscriptions w),
       trace := trace w @ [Subscription_saved subscription]\<rparr>"

text \<open>A call of the mail service inside \<^verbatim>\<open>try: ... except Exception as e: print(...)\<close>:
  the mail is attempted, and when the mail service raises, the handler prints a line and
  the caller goes on.\<close>

definition send_guarded :: "env \<Rightarrow> mail \<Rightarrow> string \<Rightarrow> world \<Rightarrow> world" where
  "send_guarded ev m line w =
     w\<lparr>trace := trace w @ [Mail_attempted m] @ (if delivers ev m then [] else [Printed line])\<rparr>"

text \<open>\<^verbatim>\<open>handle_subscription_updated\<close> (services.py, lines 86 to 121). A conversion of a
  timestamp that raises leaves the method before \<^verbatim>\<open>save()\<close>.\<close>

definition handle_subscription_updated ::
  "subscription_data \<Rightarrow> world \<Rightarrow> (error + UserSubscription option) \<times> world" where
  "handle_subscription_updated data w =
     (case get_subscription (sd_id data) w of
        Inl e \<Rightarrow> (if e = DoesNotExist then (Inr None, w) else (Inl e, w))
      | Inr subscription \<Rightarrow>
          (case fromtimestamp (sd_current_period_start data) of
             Inl e \<Rightarrow> (Inl e, w)
           | Inr ps \<Rightarrow>
               (case fromtimestamp (sd_current_period_end data) of
                  Inl e \<Rightarrow> (Inl e, w)
                | Inr pe \<Rightarrow>
                    (let s1 = subscription
                           \<lparr>status := map_stripe_status (sd_status data),
                            current_period_start := Some ps,
                            current_period_end := Some pe,
                            cancel_at_period_end :=
                              (case sd_cancel_at_period_end data of None \<Rightarrow> False | Some b \<Rightarrow> b)\<rparr>
                     in if sd_canceled_at data \<noteq> None \<and> sd_canceled_at data \<noteq> Some 0
                        then (case fromtimestamp (sd_canceled_at data) of
                                Inl e \<Rightarrow> (Inl e, w)
                              | Inr c \<Rightarrow>
                                  (Inr (Some (s1\<lparr>canceled_at := Some c\<rparr>)),
                                   save_subscription (s1\<lparr>canceled_at := Some c\<rparr>) w))
                        else (Inr (Some s1), save_subscription s1 w)))))"

text \<open>\<^verbatim>\<open>handle_subscription_deleted\<close> (services.py, lines 123 to 147); \<open>now\<close> is the
  reading of \<^verbatim>\<open>timezone.now()\<close>.\<close>

definition handle_subscription_deleted ::
  "env \<Rightarrow> datetime \<Rightarrow> subscription_data \<Rightarrow> world \<Rightarrow> (error + UserSubscription option) \<times> world" where
  "handle_subscription_deleted ev now data w =
     (case get_subscription (sd_id data) w of
        Inl e \<Rightarrow> (if e = DoesNotExist then (Inr None, w) else (Inl e, w))
      | Inr subscription \<Rightarrow>
          (let s1 = subscription\<lparr>status := CANCELED, canceled_at := Some now\<rparr>;
               w1 = save_subscription s1 w;
               w2 = (if EMAIL_ENABLED ev
                     then send_guarded ev (Subscription_cancelled (sub_user s1))
                            ''Failed to send cancellation email'' w1
                     else w1)
           in (Inr (Some s1), w2)))"

text \<open>\<^verbatim>\<open>handle_payment_failed\<close> (services.py, lines 149 to 175).\<close>

definition handle_payment_failed ::
  "env \<Rightarrow> invoice_data \<Rightarrow> world \<Rightarrow> (error + UserSubscription option) \<times> world" where
  "handle_payment_failed ev data w =
     (if inv_subscription data = None \<or> inv_subscription data = Some [] then (Inr None, w)
      else
        (case get_subscription (inv_subscription data) w of
           Inl e \<Rightarrow> (if e = DoesNotExist then (Inr None, w) else (Inl e, w))
         | Inr subscription \<Rightarrow>
             (let s1 = subscription\<lparr>status := PAST_DUE\<rparr>;
                  w1 = save_subscription s1 w;
                  w2 = (if EMAIL_ENABLED ev
                        then send_guarded ev (Payment_failed (sub_user s1))
                               ''Failed to send payment failure email'' w1
                        else w1)
              in (Inr (Some s1), w2))))"


text \<open>\<^verbatim>\<open>check_usage_quota\<close> (services.py, lines 220 to 244).\<close>

definition check_usage_quota ::
  "datetime \<Rightarrow> nat \<Rightarrow> world \<Rightarrow> (error + bool \<times> remaining) \<times> world" where
  "check_usage_quota now u w =
     (case subscription_of w u of
        None \<Rightarrow> (Inr (False, Remaining 0), w)
      | Some subscription \<Rightarrow>
          (if status subscription \<noteq> ACTIVE \<and> status subscription \<noteq> TRIALING
           then (Inr (False, Remaining 0), w)
           else
             (case get_or_create_current now u w of
                (Inl e, w1) \<Rightarrow> (Inl e, w1)
              | (Inr usage, w1) \<Rightarrow>
                  (if description_quota (plans w1 (plan subscription)) = - 1
                   then (Inr (True, Unlimited), w1)
                   else
                     (let remaining = description_quota (plans w1 (plan subscription))
                                        - descriptions_generated usage
                      in (Inr (0 < remaining, Remaining remaining), w1))))))"

text \<open>The usage as a percentage of the quota, \<^verbatim>\<open>(usage.descriptions_generated / quota) * 100\<close>.
  The source computes it in double precision; for the values an \<^verbatim>\<open>IntegerField\<close>
  holds the comparisons with 80, 90 and 100 come out as in exact arithmetic, which is
  what the model uses.\<close>

definition percentage :: "int \<Rightarrow> int \<Rightarrow> rat" where
  "percentage n quota = (of_int n / of_int quota) * 100"

text \<open>The condition of services.py, line 272.\<close>

definition warning_due :: "int \<Rightarrow> int \<Rightarrow> bool" where
  "warning_due n quota =
     (100 \<le> percentage n quota \<or> 90 \<le> percentage n quota
      \<or> (80 \<le> percentage n quota \<and> n mod 10 = 0))"

text \<open>The quota warning at the end of \<^verbatim>\<open>increment_usage\<close> (services.py, lines 263 to
  276), after the usage has been saved.\<close>

definition quota_warning :: "env \<Rightarrow> nat \<Rightarrow> Usage \<Rightarrow> world \<Rightarrow> world" where
  "quota_warning ev u usage w =
     (if EMAIL_ENABLED ev then
        (case subscription_of w u of
           None \<Rightarrow> w
         | Some subscription \<Rightarrow>
             (let quota = description_quota (plans w (plan subscription))
              in if 0 < quota \<and> warning_due (descriptions_generated usage) quota
                 then send_guarded ev (Quota_warning u (descriptions_generated usage))
                        ''Failed to send quota warning email'' w
                 else w))
      else w)"

text \<open>\<^verbatim>\<open>increment_usage\<close> (services.py, lines 246 to 278). The clock is read twice, once
  inside \<^verbatim>\<open>check_usage_quota\<close> and once by the method's own call of
  \<^verbatim>\<open>get_or_create_current\<close>: \<open>now1\<close> and \<open>now2\<close>.\<close>

definition increment_usage ::
  "env \<Rightarrow> datetime \<Rightarrow> datetime \<Rightarrow> nat \<Rightarrow> world \<Rightarrow> (error + bool) \<times> world" where
  "increment_usage ev now1 now2 u w =
     (case check_usage_quota now1 u w of
        (Inl e, w1) \<Rightarrow> (Inl e, w1)
      | (Inr (has_quota, remaining), w1) \<Rightarrow>
          (if \<not> has_quota then (Inr False, w1)
           else
             (case get_or_create_current now2 u w1 of
                (Inl e, w2) \<Rightarrow> (Inl e, w2)
              | (Inr usage0, w2) \<Rightarrow>
                  (let usage = usage0\<lparr>descriptions_generated := descriptions_generated usage0 + 1\<rparr>;
                       w3 = save_usage usage w2
                   in (Inr True, quota_warning ev u usage w3)))))"

section \<open>Notions used to state the properties\<close>

text \<open>The first instant of a month and the last full second of a month.\<close>

definition first_instant :: "nat \<Rightarrow> nat \<Rightarrow> datetime" where
  "first_instant y m =
     \<lparr>year = y, month = m, day = 1, hour = 0, minute = 0, second = 0, microsecond = 0\<rparr>"

definition last_second :: "nat \<Rightarrow> nat \<Rightarrow> datetime" where
  "last_second y m =
     \<lparr>year = y, month = m, day = days_in_month y m, hour = 23, minute = 59, second = 59,
      microsecond = 0\<rparr>"

text \<open>The whole seconds from 0001-01-01 00:00:00 up to a datetime, counted day by day
  through the calendar: the scale on which "one second earlier" is measured.\<close>

definition days_in_year :: "nat \<Rightarrow> nat" where
  "days_in_year y = (if is_leap y then 366 else 365)"

definition days_before_year :: "nat \<Rightarrow> nat" where
  "days_before_year y = sum_list (map days_in_year [1..<y])"

definition days_before_month :: "nat \<Rightarrow> nat \<Rightarrow> nat" where
  "days_before_month y m = sum_list (map (days_in_month y) [1..<m])"

definition seconds_of :: "datetime \<Rightarrow> nat" where
  "seconds_of d =
     (((days_before_year (year d) + days_before_month (year d) (month d) + (day d - 1)) * 24
        + hour d) * 60 + minute d) * 60 + second d"

text \<open>A clock reading for which the period computation returns a period.\<close>

definition period_defined :: "datetime \<Rightarrow> bool" where
  "period_defined now = (case current_period now of Inl e \<Rightarrow> False | Inr p \<Rightarrow> True)"

text \<open>A clock reading that lies inside the period computed for it.\<close>

definition inside_period :: "datetime \<Rightarrow> bool" where
  "inside_period now =
     (case current_period now of
        Inl e \<Rightarrow> False
      | Inr (ps, pe) \<Rightarrow> dt_le ps now \<and> dt_le now pe)"


text \<open>What an operation appended to the trace.\<close>

definition new_events :: "world \<Rightarrow> world \<Rightarrow> event list" where
  "new_events w w' = drop (length (trace w)) (trace w')"

text \<open>A usage table in which the row with the primary key of \<open>r0\<close> is \<open>r0\<close> with the
  count \<open>n\<close>, and every other row is as before.\<close>

definition set_count :: "Usage \<Rightarrow> int \<Rightarrow> Usage list \<Rightarrow> Usage list" where
  "set_count r0 n rs =
     map (\<lambda>r. if pk r = pk r0 then r0\<lparr>descriptions_generated := n\<rparr> else r) rs"

text \<open>A stretch of the trace that holds insertions of usage records only.\<close>

definition only_created :: "event list \<Rightarrow> bool" where
  "only_created es = (\<forall>e\<in>set es. \<exists>r. e = Usage_created r)"

text \<open>The events of the quota warning at the end of \<^verbatim>\<open>increment_usage\<close>, for the
  count \<open>n\<close> of the saved record and the quota of the plan.\<close>

definition warning_events :: "env \<Rightarrow> nat \<Rightarrow> int \<Rightarrow> int \<Rightarrow> event list" where
  "warning_events ev u n quota =
     (if EMAIL_ENABLED ev \<and> 0 < quota \<and> warning_due n quota
      then Mail_attempted (Quota_warning u n)
           # (if delivers ev (Quota_warning u n) then []
              else [Printed ''Failed to send quota warning email''])
      else [])"

section \<open>Example data\<close>

definition mid_march :: datetime where
  "mid_march = \<lparr>year = 2024, month = 3, day = 15, hour = 12, minute = 0, second = 0, microsecond = 0\<rparr>"

definition plan_basic :: SubscriptionPlan where
  "plan_basic = \<lparr>name = ''Basic'', description_quota = 5, is_active = True\<rparr>"

definition sub_one :: UserSubscription where
  "sub_one =
     \<lparr>sub_user = 1, plan = 1, stripe_subscription_id = ''sub_1'', stripe_customer_id = ''cus_1'',
      status = ACTIVE, current_period_start = None, current_period_end = None,
      trial_end = None, cancel_at_period_end = False, canceled_at = None\<rparr>"

definition usage_march :: "int \<Rightarrow> Usage" where
  "usage_march n =
     \<lparr>pk = 1, user = 1, descriptions_generated = n,
      period_start = first_instant 2024 3, period_end = last_second 2024 3\<rparr>"

definition world_march :: "int \<Rightarrow> world" where
  "world_march n =
     \<lparr>subscriptions = [sub_one], plans = (\<lambda>k. plan_basic), usages = [usage_march n],
      next_pk = 2, trace = []\<rparr>"

definition failing_mail :: env where
  "failing_mail = \<lparr>EMAIL_ENABLED = True, delivers = (\<lambda>m. False)\<rparr>"

definition mid_december :: datetime where
  "mid_december = \<lparr>year = 2023, month = 12, day = 10, hour = 8, minute = 30, second = 15, microsecond = 250000\<rparr>"

definition last_december :: datetime where
  "last_december = \<lparr>year = 9999, month = 12, day = 15, hour = 10, minute = 30, second = 0, microsecond = 0\<rparr>"

definition end_of_january :: datetime where
  "end_of_january = \<lparr>year = 2024, month = 1, day = 31, hour = 23, minute = 59, second = 59, microsecond = 500000\<rparr>"

definition world_empty :: world where
  "world_empty =
     \<lparr>subscriptions = [sub_one], plans = (\<lambda>k. plan_basic), usages = [], next_pk = 1, trace = []\<rparr>"

definition usage_january :: "nat \<Rightarrow> int \<Rightarrow> Usage" where
  "usage_january k n =
     \<lparr>pk = k, user = 1, descriptions_generated = n,
      period_start = first_instant 2024 1, period_end = last_second 2024 1\<rparr>"

definition sub_canceled :: UserSubscription where
  "sub_canceled = sub_one\<lparr>status := CANCELED, canceled_at := Some mid_december\<rparr>"

definition world_canceled :: world where
  "world_canceled =
     \<lparr>subscriptions = [sub_canceled], plans = (\<lambda>k. plan_basic), usages = [],
      next_pk = 1, trace = []\<rparr>"

definition deletion_event :: subscription_data where
  "deletion_event =
     \<lparr>sd_id = Some ''sub_1'', sd_status = Some ''canceled'', sd_current_period_start = None,
      sd_current_period_end = None, sd_cancel_at_period_end = None, sd_canceled_at = None\<rparr>"

text \<open>The object that \<^verbatim>\<open>handle_subscription_updated\<close> writes for a subscription it has
  found: the fields taken from the payload, or the error of a timestamp conversion.\<close>

definition updated_subscription ::
  "subscription_data \<Rightarrow> UserSubscription \<Rightarrow> error + UserSubscription" where
  "updated_subscription data subscription =
     (case fromtimestamp (sd_current_period_start data) of
        Inl e \<Rightarrow> Inl e
      | Inr ps \<Rightarrow>
          (case fromtimestamp (sd_current_period_end data) of
             Inl e \<Rightarrow> Inl e
           | Inr pe \<Rightarrow>
               (let s1 = subscription
                      \<lparr>status := map_stripe_status (sd_status data),
                       current_period_start := Some ps,
                       current_period_end := Some pe,
                       cancel_at_period_end :=
                         (case sd_cancel_at_period_end data of None \<Rightarrow> False | Some b \<Rightarrow> b)\<rparr>
                in if sd_canceled_at data \<noteq> None \<and> sd_canceled_at data \<noteq> Some 0
                   then (case fromtimestamp (sd_canceled_at data) of
                           Inl e \<Rightarrow> Inl e
                         | Inr c \<Rightarrow> Inr (s1\<lparr>canceled_at := Some c\<rparr>))
                   else Inr s1)))"

definition update_event :: subscription_data where
  "update_event =
     \<lparr>sd_id = Some ''sub_1'', sd_status = Some ''past_due'',
      sd_current_period_start = Some 1709251200, sd_current_period_end = Some 1711929600,
      sd_cancel_at_period_end = Some True, sd_canceled_at = Some 1710504000\<rparr>"

definition invoice_event :: invoice_data where
  "invoice_event = \<lparr>inv_subscription = Some ''sub_1''\<rparr>"


section \<open>Auxiliary facts\<close>


lemma send_guarded_fields:
  "subscriptions (send_guarded ev m l w) = subscriptions w"
  "plans (send_guarded ev m l w) = plans w"
  "usages (send_guarded ev m l w) = usages w"
  "next_pk (send_guarded ev m l w) = next_pk w"
  by (simp_all add: send_guarded_def)

lemma quota_warning_fields:
  "subscriptions (quota_warning ev u usage w) = subscriptions w"
  "plans (quota_warning ev u usage w) = plans w"
  "usages (quota_warning ev u usage w) = usages w"
  "next_pk (quota_warning ev u usage w) = next_pk w"
  by (simp_all add: quota_warning_def send_guarded_fields Let_def split: option.splits)

lemma save_usage_fields:
  "subscriptions (save_usage usage w) = subscriptions w"
  "plans (save_usage usage w) = plans w"
  "next_pk (save_usage usage w) = next_pk w"
  by (simp_all add: save_usage_def)

lemma subscription_of_cong:
  "subscriptions w' = subscriptions w \<Longrightarrow> subscription_of w' u = subscription_of w u"
  by (simp add: subscription_of_def)

lemma get_or_create_found:
  assumes "period_defined now" "current_usages now u (usages w) = [r]"
  shows "get_or_create_current now u w = (Inr r, w)"
  using assms
  by (auto simp: get_or_create_current_def period_defined_def split: sum.splits)

lemma get_or_create_created:
  assumes "current_period now = Inr (ps, pe)" "current_usages now u (usages w) = []"
  shows "get_or_create_current now u w =
     (Inr \<lparr>pk = next_pk w, user = u, descriptions_generated = 0, period_start = ps, period_end = pe\<rparr>,
      w\<lparr>usages := usages w @ [\<lparr>pk = next_pk w, user = u, descriptions_generated = 0, period_start = ps, period_end = pe\<rparr>],
        next_pk := next_pk w + 1,
        trace := trace w @ [Usage_created \<lparr>pk = next_pk w, user = u, descriptions_generated = 0, period_start = ps, period_end = pe\<rparr>]\<rparr>)"
  using assms by (simp add: get_or_create_current_def Let_def)






lemma save_usage_existing:
  assumes "r0 \<in> set (usages w)"
  shows "usages (save_usage (r0\<lparr>descriptions_generated := n\<rparr>) w) = set_count r0 n (usages w)"
  using assms by (auto simp: save_usage_def set_count_def)

lemma check_usage_quota_found:
  assumes "subscription_of w u = Some s" "status s = ACTIVE \<or> status s = TRIALING"
    and "period_defined now" "current_usages now u (usages w) = [r]"
  shows "check_usage_quota now u w =
     (if description_quota (plans w (plan s)) = - 1 then (Inr (True, Unlimited), w)
      else (Inr (0 < description_quota (plans w (plan s)) - descriptions_generated r,
                 Remaining (description_quota (plans w (plan s)) - descriptions_generated r)), w))"
  using assms by (auto simp: check_usage_quota_def get_or_create_found Let_def)

lemma increment_usage_found:
  assumes "subscription_of w u = Some s" "status s = ACTIVE \<or> status s = TRIALING"
    and "period_defined now1" "current_usages now1 u (usages w) = [r]"
    and "period_defined now2" "current_usages now2 u (usages w) = [r]"
    and "description_quota (plans w (plan s)) \<noteq> - 1"
  shows "increment_usage ev now1 now2 u w =
     (if descriptions_generated r < description_quota (plans w (plan s))
      then (Inr True,
            quota_warning ev u (r\<lparr>descriptions_generated := descriptions_generated r + 1\<rparr>)
              (save_usage (r\<lparr>descriptions_generated := descriptions_generated r + 1\<rparr>) w))
      else (Inr False, w))"
  using assms
  by (simp add: increment_usage_def check_usage_quota_found get_or_create_found Let_def)








subsection \<open>The example data\<close>


lemmas example_defs = mid_march_def plan_basic_def sub_one_def usage_march_def world_march_def
  failing_mail_def first_instant_def last_second_def

lemma dt_le_fields:
  "dt_le a b = (year a < year b \<or> year a = year b \<and> (month a < month b \<or> month a = month b \<and>
     (day a < day b \<or> day a = day b \<and> (hour a < hour b \<or> hour a = hour b \<and>
     (minute a < minute b \<or> minute a = minute b \<and> (second a < second b \<or> second a = second b \<and>
      microsecond a \<le> microsecond b))))))"
  by (auto simp: dt_le_def dt_key_def less_eq_prod_def less_prod_def)

lemma mid_march_period: "period_defined mid_march"
  by (simp add: period_defined_def current_period_def replace_def valid_datetime_def
      minus_one_second_def days_in_month_def is_leap_def mid_march_def)

lemma mid_march_current: "current_usages mid_march (Suc 0) (usages (world_march n)) = [usage_march n]"
  by (simp add: current_usages_def example_defs dt_le_fields days_in_month_def)

subsection \<open>The calendar\<close>


lemma days_before_month_Suc:
  "1 \<le> m \<Longrightarrow> days_before_month y (Suc m) = days_before_month y m + days_in_month y m"
  by (simp add: days_before_month_def)

lemma days_before_year_Suc: "1 \<le> y \<Longrightarrow> days_before_year (Suc y) = days_before_year y + days_in_year y"
  by (simp add: days_before_year_def)

lemma days_before_january: "days_before_month y (Suc 0) = 0"
  by (simp add: days_before_month_def)

lemma months_before_december: "[Suc 0..<12] = [1, 2, 3, 4, 5, 6, 7, 8, 9, 10, 11]"
  by code_simp

lemma days_before_december: "days_before_month y 12 + 31 = days_in_year y"
  by (simp add: days_before_month_def months_before_december days_in_month_def days_in_year_def)

lemma days_in_month_pos: "0 < days_in_month y m"
  by (simp add: days_in_month_def)

lemma current_period_value:
  assumes "valid_datetime now" "\<not> (year now = 9999 \<and> month now = 12)"
  shows "current_period now
           = Inr (first_instant (year now) (month now), last_second (year now) (month now))"
  using assms
  by (auto simp: current_period_def replace_def valid_datetime_def minus_one_second_def
      days_in_month_def first_instant_def last_second_def)

lemma seconds_month_end:
  assumes "1 \<le> y" "1 \<le> m" "m \<le> 12"
  shows "seconds_of (last_second y m) + 1
           = seconds_of (if m = 12 then first_instant (y + 1) 1 else first_instant y (m + 1))"
proof (cases "m = 12")
  case True
  have "days_before_year (Suc y) = days_before_year y + (days_before_month y 12 + 31)"
    using assms by (simp add: days_before_year_Suc days_before_december)
  then show ?thesis using True
    by (simp add: seconds_of_def last_second_def first_instant_def days_before_january
        days_in_month_def)
next
  case False
  have "days_before_month y (Suc m) = days_before_month y m + days_in_month y m"
    using assms by (simp add: days_before_month_Suc)
  moreover have "0 < days_in_month y m" by (rule days_in_month_pos)
  ultimately show ?thesis using False
    by (simp add: seconds_of_def last_second_def first_instant_def)
qed

subsection \<open>The quota gate\<close>

text \<open>The three outcomes of \<^verbatim>\<open>check_usage_quota\<close>: no subscription or a status other
  than ACTIVE and TRIALING gives \<open>(False, 0)\<close>; the quota \<open>-1\<close> gives \<open>(True, unlimited)\<close>
  whatever the count; otherwise the result is the difference of quota and count, and whether
  it is positive.\<close>


lemma check_usage_quota_cases:
  "check_usage_quota now u w =
     (case subscription_of w u of
        None \<Rightarrow> (Inr (False, Remaining 0), w)
      | Some s \<Rightarrow>
          if status s \<noteq> ACTIVE \<and> status s \<noteq> TRIALING then (Inr (False, Remaining 0), w)
          else (case get_or_create_current now u w of
                  (Inl e, w1) \<Rightarrow> (Inl e, w1)
                | (Inr usage, w1) \<Rightarrow>
                    if description_quota (plans w (plan s)) = - 1 then (Inr (True, Unlimited), w1)
                    else (Inr (0 < description_quota (plans w (plan s)) - descriptions_generated usage,
                               Remaining (description_quota (plans w (plan s)) - descriptions_generated usage)),
                          w1)))"
proof -
  have "plans (snd (get_or_create_current now u w)) = plans w"
    by (simp add: get_or_create_current_def Let_def split: sum.splits prod.splits list.splits)
  then show ?thesis
    by (auto simp: check_usage_quota_def Let_def split: option.splits prod.splits sum.splits)
qed

subsection \<open>The subscription table\<close>


lemma get_subscription_Inr:
  "get_subscription sid w = Inr s \<longleftrightarrow>
     filter (\<lambda>x. Some (stripe_subscription_id x) = sid) (subscriptions w) = [s]"
  by (auto simp: get_subscription_def split: list.splits)

lemma get_subscription_mem:
  assumes "get_subscription sid w = Inr s"
  shows "s \<in> set (subscriptions w)" "Some (stripe_subscription_id s) = sid"
proof -
  have "s \<in> set (filter (\<lambda>x. Some (stripe_subscription_id x) = sid) (subscriptions w))"
    using assms by (simp add: get_subscription_Inr)
  then show "s \<in> set (subscriptions w)" "Some (stripe_subscription_id s) = sid" by simp_all
qed

lemma save_subscription_fields:
  "plans (save_subscription s w) = plans w"
  "usages (save_subscription s w) = usages w"
  "next_pk (save_subscription s w) = next_pk w"
  "trace (save_subscription s w) = trace w @ [Subscription_saved s]"
  by (simp_all add: save_subscription_def)

lemma save_subscription_row:
  assumes "distinct (map sub_user (subscriptions w))" "s \<in> set (subscriptions w)"
    and "sub_user s' = sub_user s"
  shows "subscriptions (save_subscription s' w) = map (\<lambda>x. if x = s then s' else x) (subscriptions w)"
proof -
  have "map (\<lambda>x. if sub_user x = sub_user s' then s' else x) (subscriptions w)
          = map (\<lambda>x. if x = s then s' else x) (subscriptions w)"
  proof (rule map_cong[OF refl])
    fix x assume "x \<in> set (subscriptions w)"
    with assms have "sub_user x = sub_user s' \<longleftrightarrow> x = s"
      by (metis distinct_map inj_on_def)
    then show "(if sub_user x = sub_user s' then s' else x) = (if x = s then s' else x)" by simp
  qed
  then show ?thesis by (simp add: save_subscription_def)
qed

lemma get_subscription_save:
  assumes "get_subscription sid w = Inr s" "distinct (map sub_user (subscriptions w))"
    and "sub_user s' = sub_user s" "stripe_subscription_id s' = stripe_subscription_id s"
  shows "get_subscription sid (save_subscription s' w) = Inr s'"
proof -
  note mem = get_subscription_mem[OF assms(1)]
  have f: "filter (\<lambda>x. Some (stripe_subscription_id x) = sid) (subscriptions w) = [s]"
    using assms(1) by (simp add: get_subscription_Inr)
  have "filter (\<lambda>x. Some (stripe_subscription_id x) = sid)
          (map (\<lambda>x. if x = s then s' else x) (subscriptions w))
        = map (\<lambda>x. if x = s then s' else x)
            (filter (\<lambda>x. Some (stripe_subscription_id x) = sid) (subscriptions w))"
    unfolding filter_map
    by (rule arg_cong[where f="map _"], rule filter_cong) (auto simp: o_def assms(4) mem(2))
  then show ?thesis
    unfolding get_subscription_Inr save_subscription_row[OF assms(2) mem(1) assms(3)] f by simp
qed

lemma handle_subscription_deleted_found:
  assumes "get_subscription (sd_id data) w = Inr s"
  shows "handle_subscription_deleted ev now data w =
     (Inr (Some (s\<lparr>status := CANCELED, canceled_at := Some now\<rparr>)),
      (if EMAIL_ENABLED ev
       then send_guarded ev (Subscription_cancelled (sub_user s)) ''Failed to send cancellation email''
              (save_subscription (s\<lparr>status := CANCELED, canceled_at := Some now\<rparr>) w)
       else save_subscription (s\<lparr>status := CANCELED, canceled_at := Some now\<rparr>) w))"
  using assms by (simp add: handle_subscription_deleted_def Let_def)

lemma get_subscription_cong:
  "subscriptions w' = subscriptions w \<Longrightarrow> get_subscription sid w' = get_subscription sid w"
  by (simp add: get_subscription_def)

lemma send_guarded_trace:
  "trace (send_guarded ev m l w) = trace w @ Mail_attempted m # (if delivers ev m then [] else [Printed l])"
  by (simp add: send_guarded_def)


lemma deletion_event_finds: "get_subscription (sd_id deletion_event) (world_march n) = Inr sub_one"
  by (simp add: get_subscription_def deletion_event_def world_march_def sub_one_def)

subsection \<open>Subscription updates\<close>


lemma handle_subscription_updated_found:
  assumes "get_subscription (sd_id data) w = Inr s"
  shows "handle_subscription_updated data w =
     (case updated_subscription data s of
        Inl e \<Rightarrow> (Inl e, w)
      | Inr s' \<Rightarrow> (Inr (Some s'), save_subscription s' w))"
  using assms
  by (simp add: handle_subscription_updated_def updated_subscription_def Let_def
      split: sum.splits)

lemma handle_subscription_updated_missing:
  assumes "get_subscription (sd_id data) w = Inl e"
  shows "snd (handle_subscription_updated data w) = w"
  using assms by (simp add: handle_subscription_updated_def)

lemma updated_subscription_again:
  assumes "updated_subscription data s = Inr s'"
  shows "updated_subscription data s' = Inr s'"
    and "sub_user s' = sub_user s"
    and "stripe_subscription_id s' = stripe_subscription_id s"
  using assms
  by (auto simp: updated_subscription_def Let_def split: sum.splits if_splits)

lemma save_subscription_twice:
  "subscriptions (save_subscription s (save_subscription s w)) = subscriptions (save_subscription s w)"
  by (simp add: save_subscription_def o_def)

lemma saved_row_found:
  assumes "s \<in> set (subscriptions w)" "sub_user s' = sub_user s"
    and "Some (stripe_subscription_id s') = sid"
    and "get_subscription sid (save_subscription s' w) = Inr x"
  shows "x = s'"
proof -
  have "s' \<in> set (subscriptions (save_subscription s' w))"
    using assms(1,2) by (force simp: save_subscription_def)
  then have "s' \<in> set (filter (\<lambda>x. Some (stripe_subscription_id x) = sid)
                         (subscriptions (save_subscription s' w)))"
    using assms(3) by simp
  with assms(4)[unfolded get_subscription_Inr] have "s' \<in> set [x]" by metis
  then show ?thesis by simp
qed

lemma civil_march:
  "civil_from_days 19783 = (2024, 3, 1)"
  "civil_from_days 19814 = (2024, 4, 1)"
  "civil_from_days 19797 = (2024, 3, 15)"
  by code_simp+

lemma fromtimestamp_march:
  "fromtimestamp (Some 1709251200) = Inr (first_instant 2024 3)"
  "fromtimestamp (Some 1711929600) = Inr (first_instant 2024 4)"
  "fromtimestamp (Some 1710504000) = Inr mid_march"
  by (simp_all add: fromtimestamp_def civil_march first_instant_def mid_march_def)

lemma handle_subscription_updated_example:
  "subscriptions (snd (handle_subscription_updated update_event (world_march 4)))
     = [sub_one\<lparr>status := PAST_DUE,
               current_period_start := Some (first_instant 2024 3),
               current_period_end := Some (first_instant 2024 4),
               cancel_at_period_end := True,
               canceled_at := Some mid_march\<rparr>]"
proof -
  have g: "get_subscription (sd_id update_event) (world_march 4) = Inr sub_one"
    by (simp add: get_subscription_def update_event_def world_march_def sub_one_def)
  have u: "updated_subscription update_event sub_one
     = Inr (sub_one\<lparr>status := PAST_DUE,
               current_period_start := Some (first_instant 2024 3),
               current_period_end := Some (first_instant 2024 4),
               cancel_at_period_end := True,
               canceled_at := Some mid_march\<rparr>)"
    by (simp add: updated_subscription_def update_event_def fromtimestamp_march
        map_stripe_status_def)
  show ?thesis
    by (simp add: handle_subscription_updated_found[OF g] u save_subscription_def)
       (simp add: world_march_def sub_one_def)
qed

subsection \<open>Lookup, creation and increment of the current record\<close>


lemma inside_period_defined: "inside_period now \<Longrightarrow> period_defined now"
  by (simp add: inside_period_def period_defined_def split: sum.splits)

lemma get_or_create_current_tables:
  "subscriptions (snd (get_or_create_current now u w)) = subscriptions w"
  "plans (snd (get_or_create_current now u w)) = plans w"
  by (simp_all add: get_or_create_current_def Let_def split: sum.splits prod.splits list.splits)

text \<open>The two ways in which \<^verbatim>\<open>get_or_create_current\<close> returns a record.\<close>

lemma get_or_create_current_Inr:
  assumes "get_or_create_current now u w = (Inr r, w1)"
  shows "(current_usages now u (usages w) = [r] \<and> w1 = w)
       \<or> (current_usages now u (usages w) = []
          \<and> current_period now = Inr (period_start r, period_end r)
          \<and> r = \<lparr>pk = next_pk w, user = u, descriptions_generated = 0,
                  period_start = period_start r, period_end = period_end r\<rparr>
          \<and> w1 = w\<lparr>usages := usages w @ [r], next_pk := next_pk w + 1,
                    trace := trace w @ [Usage_created r]\<rparr>)"
  using assms
  by (auto simp: get_or_create_current_def Let_def split: sum.splits prod.splits list.splits)

lemma current_usages_append:
  "current_usages now u (rs @ [r])
     = current_usages now u rs
       @ (if user r = u \<and> dt_le (period_start r) now \<and> dt_le now (period_end r) then [r] else [])"
  by (simp add: current_usages_def)

lemma save_usage_mem: "usage \<in> set (usages (save_usage usage w))"
  by (force simp: save_usage_def)

lemma save_usage_trace: "trace (save_usage usage w) = trace w @ [Usage_saved usage]"
  by (simp add: save_usage_def)

text \<open>A successful \<^verbatim>\<open>increment_usage\<close>, step by step.\<close>

lemma increment_usage_True:
  assumes "increment_usage ev now1 now2 u w = (Inr True, w')"
  shows "\<exists>s a w1 b w2.
           subscription_of w u = Some s \<and> (status s = ACTIVE \<or> status s = TRIALING)
         \<and> get_or_create_current now1 u w = (Inr a, w1)
         \<and> (description_quota (plans w (plan s)) = - 1
              \<or> descriptions_generated a < description_quota (plans w (plan s)))
         \<and> get_or_create_current now2 u w1 = (Inr b, w2)
         \<and> w' = quota_warning ev u (b\<lparr>descriptions_generated := descriptions_generated b + 1\<rparr>)
                  (save_usage (b\<lparr>descriptions_generated := descriptions_generated b + 1\<rparr>) w2)"
proof -
  from assms obtain s where s: "subscription_of w u = Some s"
    by (auto simp: increment_usage_def check_usage_quota_cases split: option.splits)
  from assms s have st: "status s = ACTIVE \<or> status s = TRIALING"
    by (auto simp: increment_usage_def check_usage_quota_cases split: if_splits)
  obtain ra w1 where g1: "get_or_create_current now1 u w = (ra, w1)" by (cases "get_or_create_current now1 u w")
  from assms s st g1 obtain a where a: "ra = Inr a"
    by (cases ra) (auto simp: increment_usage_def check_usage_quota_cases)
  have chk: "check_usage_quota now1 u w =
      (if description_quota (plans w (plan s)) = - 1 then (Inr (True, Unlimited), w1)
       else (Inr (0 < description_quota (plans w (plan s)) - descriptions_generated a,
                  Remaining (description_quota (plans w (plan s)) - descriptions_generated a)), w1))"
    using s st g1 a by (auto simp: check_usage_quota_cases)
  have q: "description_quota (plans w (plan s)) = - 1
              \<or> descriptions_generated a < description_quota (plans w (plan s))"
    using assms chk by (auto simp: increment_usage_def split: if_splits)
  obtain rb w2 where g2: "get_or_create_current now2 u w1 = (rb, w2)" by (cases "get_or_create_current now2 u w1")
  from assms chk q g2 obtain b where b: "rb = Inr b"
    by (cases rb) (auto simp: increment_usage_def split: if_splits)
  have "w' = quota_warning ev u (b\<lparr>descriptions_generated := descriptions_generated b + 1\<rparr>)
                  (save_usage (b\<lparr>descriptions_generated := descriptions_generated b + 1\<rparr>) w2)"
    using assms chk q g2 b by (auto simp: increment_usage_def Let_def split: if_splits)
  with s st g1 a q g2 b show ?thesis by blast
qed








lemma world_march_consume:
  assumes "n < 5"
  shows "fst (increment_usage ev mid_march mid_march (Suc 0) (world_march n)) = Inr True"
    and "usages (snd (increment_usage ev mid_march mid_march (Suc 0) (world_march n)))
           = [usage_march (n + 1)]"
proof -
  have s: "subscription_of (world_march n) (Suc 0) = Some sub_one"
    by (simp add: subscription_of_def world_march_def sub_one_def)
  have st: "status sub_one = ACTIVE \<or> status sub_one = TRIALING" by (simp add: sub_one_def)
  have q: "description_quota (plans (world_march n) (plan sub_one)) = 5"
    by (simp add: world_march_def plan_basic_def)
  note inc = increment_usage_found[OF s st mid_march_period mid_march_current
      mid_march_period mid_march_current, of ev]
  have c: "descriptions_generated (usage_march n) = n" by (simp add: usage_march_def)
  show "fst (increment_usage ev mid_march mid_march (Suc 0) (world_march n)) = Inr True"
    using inc q c assms by simp
  have "usage_march n \<in> set (usages (world_march n))" by (simp add: world_march_def)
  from save_usage_existing[OF this]
  show "usages (snd (increment_usage ev mid_march mid_march (Suc 0) (world_march n)))
           = [usage_march (n + 1)]"
    using inc q c assms
    by (simp add: quota_warning_fields set_count_def) (simp add: world_march_def usage_march_def)
qed


subsection \<open>The trace of a consume\<close>

lemma only_created_simps:
  "only_created []" "only_created [Usage_created r]"
  "only_created (xs @ ys) = (only_created xs \<and> only_created ys)"
  by (auto simp: only_created_def)

lemma only_created_no_mail: "only_created es \<Longrightarrow> Mail_attempted m \<notin> set es"
  by (auto simp: only_created_def)

lemma get_or_create_current_trace:
  "\<exists>pre. trace (snd (get_or_create_current now u w)) = trace w @ pre \<and> only_created pre"
proof (cases "get_or_create_current now u w")
  case (Pair r w1)
  show ?thesis
  proof (cases r)
    case (Inl e)
    then have "w1 = w" using Pair
      by (auto simp: get_or_create_current_def Let_def split: sum.splits prod.splits list.splits)
    then show ?thesis using Pair by (simp add: only_created_simps)
  next
    case (Inr a)
    from get_or_create_current_Inr[OF Pair[unfolded Inr]] show ?thesis
    proof
      assume "current_usages now u (usages w) = [a] \<and> w1 = w"
      then show ?thesis using Pair by (simp add: only_created_simps)
    next
      assume "current_usages now u (usages w) = []
          \<and> current_period now = Inr (period_start a, period_end a)
          \<and> a = \<lparr>pk = next_pk w, user = u, descriptions_generated = 0,
                  period_start = period_start a, period_end = period_end a\<rparr>
          \<and> w1 = w\<lparr>usages := usages w @ [a], next_pk := next_pk w + 1,
                    trace := trace w @ [Usage_created a]\<rparr>"
      then have "trace w1 = trace w @ [Usage_created a]" by (metis world.select_convs(5) world.surjective world.update_convs(3,4,5))
      then show ?thesis using Pair by (auto simp: only_created_simps)
    qed
  qed
qed

lemma quota_warning_trace:
  assumes "subscription_of w u = Some s"
  shows "trace (quota_warning ev u usage w)
           = trace w @ warning_events ev u (descriptions_generated usage)
                         (description_quota (plans w (plan s)))"
  using assms by (simp add: quota_warning_def warning_events_def send_guarded_trace Let_def)

lemma increment_usage_events:
  assumes "increment_usage ev now1 now2 u w = (Inr True, w')" "subscription_of w u = Some s"
  shows "\<exists>usage pre. only_created pre \<and> usage \<in> set (usages w')
           \<and> new_events w w'
               = pre @ Usage_saved usage
                   # warning_events ev u (descriptions_generated usage)
                       (description_quota (plans w (plan s)))"
proof -
  from increment_usage_True[OF assms(1)] obtain a w1 b w2 where
    g1: "get_or_create_current now1 u w = (Inr a, w1)" and
    g2: "get_or_create_current now2 u w1 = (Inr b, w2)" and
    w': "w' = quota_warning ev u (b\<lparr>descriptions_generated := descriptions_generated b + 1\<rparr>)
                  (save_usage (b\<lparr>descriptions_generated := descriptions_generated b + 1\<rparr>) w2)"
    by blast
  let ?b' = "b\<lparr>descriptions_generated := descriptions_generated b + 1\<rparr>"
  let ?w3 = "save_usage ?b' w2"
  obtain p1 where p1: "trace w1 = trace w @ p1" "only_created p1"
    using get_or_create_current_trace[of now1 u w] g1 by auto
  obtain p2 where p2: "trace w2 = trace w1 @ p2" "only_created p2"
    using get_or_create_current_trace[of now2 u w1] g2 by auto
  have t: "subscriptions ?w3 = subscriptions w" "plans ?w3 = plans w"
    using get_or_create_current_tables[of now1 u w] get_or_create_current_tables[of now2 u w1] g1 g2
    by (simp_all add: save_usage_fields)
  have s3: "subscription_of ?w3 u = Some s" using assms(2) t by (simp add: subscription_of_def)
  have "trace w' = trace w @ (p1 @ p2) @ Usage_saved ?b'
           # warning_events ev u (descriptions_generated ?b') (description_quota (plans w (plan s)))"
    unfolding w' quota_warning_trace[OF s3] by (simp add: save_usage_trace p1 p2 t)
  then have "new_events w w' = (p1 @ p2) @ Usage_saved ?b'
           # warning_events ev u (descriptions_generated ?b') (description_quota (plans w (plan s)))"
    by (simp add: new_events_def)
  moreover have "?b' \<in> set (usages w')"
    unfolding w' by (simp add: quota_warning_fields save_usage_mem)
  moreover have "only_created (p1 @ p2)" using p1 p2 by (simp add: only_created_simps)
  ultimately show ?thesis by blast
qed

lemma percentage_tiers:
  assumes "0 < quota"
  shows "(90 \<le> percentage n quota) = (9 * quota \<le> 10 * n)"
    and "(80 \<le> percentage n quota) = (4 * quota \<le> 5 * n)"
    and "(100 \<le> percentage n quota) = (quota \<le> n)"
proof -
  have q: "(0::rat) < of_int quota" using assms by simp
  have "(90 \<le> percentage n quota) = (90 * of_int quota \<le> (of_int n * 100 :: rat))"
    unfolding percentage_def using q by (simp add: pos_le_divide_eq)
  also have "\<dots> = (of_int (9 * quota) \<le> (of_int (10 * n) :: rat))" by simp
  also have "\<dots> = (9 * quota \<le> 10 * n)" by (simp only: of_int_le_iff)
  finally show "(90 \<le> percentage n quota) = (9 * quota \<le> 10 * n)" .
  have "(80 \<le> percentage n quota) = (80 * of_int quota \<le> (of_int n * 100 :: rat))"
    unfolding percentage_def using q by (simp add: pos_le_divide_eq)
  also have "\<dots> = (of_int (4 * quota) \<le> (of_int (5 * n) :: rat))" by simp
  also have "\<dots> = (4 * quota \<le> 5 * n)" by (simp only: of_int_le_iff)
  finally show "(80 \<le> percentage n quota) = (4 * quota \<le> 5 * n)" .
  have "(100 \<le> percentage n quota) = (100 * of_int quota \<le> (of_int n * 100 :: rat))"
    unfolding percentage_def using q by (simp add: pos_le_divide_eq)
  also have "\<dots> = (quota \<le> n)" by simp
  finally show "(100 \<le> percentage n quota) = (quota \<le> n)" .
qed



lemma world_march_subscription:
  "subscription_of (world_march n) 1 = Some sub_one"
  "description_quota (plans (world_march n) (plan sub_one)) = 5"
  by (simp_all add: subscription_of_def world_march_def sub_one_def plan_basic_def)

subsection \<open>Mail delivery and the order of events\<close>

lemma new_events_same: "new_events w w = []"
  by (simp add: new_events_def)

lemma increment_usage_delivery:
  "fst (increment_usage (ev\<lparr>delivers := d\<rparr>) now1 now2 u w) = fst (increment_usage ev now1 now2 u w)"
  "persistent (snd (increment_usage (ev\<lparr>delivers := d\<rparr>) now1 now2 u w))
     = persistent (snd (increment_usage ev now1 now2 u w))"
  by (auto simp: increment_usage_def persistent_def quota_warning_fields save_usage_fields Let_def
      split: prod.splits sum.splits)

lemma handle_subscription_deleted_delivery:
  "fst (handle_subscription_deleted (ev\<lparr>delivers := d\<rparr>) now data w)
     = fst (handle_subscription_deleted ev now data w)"
  "persistent (snd (handle_subscription_deleted (ev\<lparr>delivers := d\<rparr>) now data w))
     = persistent (snd (handle_subscription_deleted ev now data w))"
  by (auto simp: handle_subscription_deleted_def persistent_def send_guarded_fields Let_def
      split: sum.splits)

lemma handle_payment_failed_delivery:
  "fst (handle_payment_failed (ev\<lparr>delivers := d\<rparr>) data w) = fst (handle_payment_failed ev data w)"
  "persistent (snd (handle_payment_failed (ev\<lparr>delivers := d\<rparr>) data w))
     = persistent (snd (handle_payment_failed ev data w))"
  by (auto simp: handle_payment_failed_def persistent_def send_guarded_fields Let_def
      split: sum.splits)

lemma handle_payment_failed_found:
  assumes "get_subscription (inv_subscription data) w = Inr s"
    and "inv_subscription data \<noteq> None" "inv_subscription data \<noteq> Some []"
  shows "handle_payment_failed ev data w =
     (Inr (Some (s\<lparr>status := PAST_DUE\<rparr>)),
      (if EMAIL_ENABLED ev
       then send_guarded ev (Payment_failed (sub_user s)) ''Failed to send payment failure email''
              (save_subscription (s\<lparr>status := PAST_DUE\<rparr>) w)
       else save_subscription (s\<lparr>status := PAST_DUE\<rparr>) w))"
  using assms by (simp add: handle_payment_failed_def Let_def)

lemma handle_payment_failed_missing:
  assumes "get_subscription (inv_subscription data) w = Inl e
           \<or> inv_subscription data = None \<or> inv_subscription data = Some []"
  shows "snd (handle_payment_failed ev data w) = w"
  using assms by (auto simp: handle_payment_failed_def)

lemma handle_subscription_deleted_missing:
  assumes "get_subscription (sd_id data) w = Inl e"
  shows "snd (handle_subscription_deleted ev now data w) = w"
  using assms by (simp add: handle_subscription_deleted_def)

lemma save_subscription_mem:
  assumes "s \<in> set (subscriptions w)" "sub_user s' = sub_user s"
  shows "s' \<in> set (subscriptions (save_subscription s' w))"
  using assms by (force simp: save_subscription_def)

lemma saved_then_mail:
  assumes "w' = (if EMAIL_ENABLED ev then send_guarded ev m0 line (save_subscription s' w)
                 else save_subscription s' w)"
    and "Mail_attempted m \<in> set (new_events w w')"
  shows "new_events w w'
           = Subscription_saved s' # Mail_attempted m
               # (if delivers ev m then [] else [Printed line])"
  using assms
  by (auto simp: new_events_def send_guarded_trace save_subscription_fields split: if_splits)

lemma handle_subscription_deleted_order:
  assumes "Mail_attempted m \<in> set (new_events w (snd (handle_subscription_deleted ev now data w)))"
  shows "\<exists>s'. fst (handle_subscription_deleted ev now data w) = Inr (Some s')
            \<and> status s' = CANCELED
            \<and> s' \<in> set (subscriptions (snd (handle_subscription_deleted ev now data w)))
            \<and> new_events w (snd (handle_subscription_deleted ev now data w))
                = Subscription_saved s' # Mail_attempted m
                    # (if delivers ev m then []
                       else [Printed ''Failed to send cancellation email''])"
proof (cases "get_subscription (sd_id data) w")
  case (Inl e)
  then show ?thesis using assms
    by (simp add: handle_subscription_deleted_missing new_events_same)
next
  case (Inr s)
  let ?s' = "s\<lparr>status := CANCELED, canceled_at := Some now\<rparr>"
  note f = handle_subscription_deleted_found[OF Inr, of ev now]
  have w': "snd (handle_subscription_deleted ev now data w)
     = (if EMAIL_ENABLED ev
        then send_guarded ev (Subscription_cancelled (sub_user s))
               ''Failed to send cancellation email'' (save_subscription ?s' w)
        else save_subscription ?s' w)"
    by (simp add: f)
  have "?s' \<in> set (subscriptions (save_subscription ?s' w))"
    by (rule save_subscription_mem[OF get_subscription_mem(1)[OF Inr]]) simp
  then have mem: "?s' \<in> set (subscriptions (snd (handle_subscription_deleted ev now data w)))"
    by (simp add: w' send_guarded_fields)
  from saved_then_mail[OF w' assms] mem show ?thesis
    by (intro exI[of _ ?s']) (simp add: f)
qed

lemma handle_payment_failed_order:
  assumes "Mail_attempted m \<in> set (new_events w (snd (handle_payment_failed ev data w)))"
  shows "\<exists>s'. fst (handle_payment_failed ev data w) = Inr (Some s')
            \<and> status s' = PAST_DUE
            \<and> s' \<in> set (subscriptions (snd (handle_payment_failed ev data w)))
            \<and> new_events w (snd (handle_payment_failed ev data w))
                = Subscription_saved s' # Mail_attempted m
                    # (if delivers ev m then []
                       else [Printed ''Failed to send payment failure email''])"
proof (cases "inv_subscription data = None \<or> inv_subscription data = Some []")
  case True
  then have "snd (handle_payment_failed ev data w) = w"
    by (intro handle_payment_failed_missing[of _ _ DoesNotExist]) simp
  then show ?thesis using assms by (simp add: new_events_same)
next
  case present: False
  show ?thesis
  proof (cases "get_subscription (inv_subscription data) w")
    case (Inl e)
    then have "snd (handle_payment_failed ev data w) = w"
      by (intro handle_payment_failed_missing[of _ _ e]) simp
    then show ?thesis using assms by (simp add: new_events_same)
  next
    case (Inr s)
    let ?s' = "s\<lparr>status := PAST_DUE\<rparr>"
    from present have p: "inv_subscription data \<noteq> None" "inv_subscription data \<noteq> Some []"
      by simp_all
    note f = handle_payment_failed_found[OF Inr p, of ev]
    have w': "snd (handle_payment_failed ev data w)
       = (if EMAIL_ENABLED ev
          then send_guarded ev (Payment_failed (sub_user s))
                 ''Failed to send payment failure email'' (save_subscription ?s' w)
          else save_subscription ?s' w)"
      by (simp add: f)
    have "?s' \<in> set (subscriptions (save_subscription ?s' w))"
      by (rule save_subscription_mem[OF get_subscription_mem(1)[OF Inr]]) simp
    then have mem: "?s' \<in> set (subscriptions (snd (handle_payment_failed ev data w)))"
      by (simp add: w' send_guarded_fields)
    from saved_then_mail[OF w' assms] mem show ?thesis
      by (intro exI[of _ ?s']) (simp add: f)
  qed
qed

lemma check_usage_quota_trace:
  "\<exists>pre. trace (snd (check_usage_quota now u w)) = trace w @ pre \<and> only_created pre"
proof -
  have "snd (check_usage_quota now u w) = w
        \<or> snd (check_usage_quota now u w) = snd (get_or_create_current now u w)"
    by (auto simp: check_usage_quota_cases split: option.splits prod.splits sum.splits)
  then show ?thesis
    using get_or_create_current_trace[of now u w] by (auto simp: only_created_simps)
qed

lemma increment_usage_failure_trace:
  assumes "fst (increment_usage ev now1 now2 u w) \<noteq> Inr True"
  shows "\<exists>pre. trace (snd (increment_usage ev now1 now2 u w)) = trace w @ pre \<and> only_created pre"
proof -
  obtain r w1 where c: "check_usage_quota now1 u w = (r, w1)" by (cases "check_usage_quota now1 u w")
  obtain p1 where p1: "trace w1 = trace w @ p1" "only_created p1"
    using check_usage_quota_trace[of now1 u w] c by auto
  obtain rb w2 where g: "get_or_create_current now2 u w1 = (rb, w2)"
    by (cases "get_or_create_current now2 u w1")
  obtain p2 where p2: "trace w2 = trace w1 @ p2" "only_created p2"
    using get_or_create_current_trace[of now2 u w1] g by auto
  have "snd (increment_usage ev now1 now2 u w) = w1 \<or> snd (increment_usage ev now1 now2 u w) = w2"
    using assms c g
    by (auto simp: increment_usage_def Let_def split: sum.splits prod.splits if_splits)
  then show ?thesis
  proof
    assume "snd (increment_usage ev now1 now2 u w) = w1"
    then show ?thesis using p1 by auto
  next
    assume "snd (increment_usage ev now1 now2 u w) = w2"
    then have "trace (snd (increment_usage ev now1 now2 u w)) = trace w @ (p1 @ p2)"
      using p1 p2 by simp
    moreover have "only_created (p1 @ p2)" using p1 p2 by (simp add: only_created_simps)
    ultimately show ?thesis by blast
  qed
qed

lemma increment_usage_order:
  assumes "Mail_attempted m \<in> set (new_events w (snd (increment_usage ev now1 now2 u w)))"
  shows "fst (increment_usage ev now1 now2 u w) = Inr True
       \<and> (\<exists>usage pre. only_created pre
             \<and> usage \<in> set (usages (snd (increment_usage ev now1 now2 u w)))
             \<and> new_events w (snd (increment_usage ev now1 now2 u w))
                 = pre @ Usage_saved usage # Mail_attempted m
                     # (if delivers ev m then []
                        else [Printed ''Failed to send quota warning email'']))"
proof -
  let ?w' = "snd (increment_usage ev now1 now2 u w)"
  have ok: "fst (increment_usage ev now1 now2 u w) = Inr True"
  proof (rule ccontr)
    assume "fst (increment_usage ev now1 now2 u w) \<noteq> Inr True"
    from increment_usage_failure_trace[OF this] obtain pre where
      "trace ?w' = trace w @ pre" "only_created pre" by blast
    then have "new_events w ?w' = pre" "Mail_attempted m \<notin> set pre"
      by (simp_all add: new_events_def only_created_no_mail)
    then show False using assms by simp
  qed
  then have eq: "increment_usage ev now1 now2 u w = (Inr True, ?w')" by (simp add: prod_eq_iff)
  from increment_usage_True[OF eq] obtain s where s: "subscription_of w u = Some s" by blast
  from increment_usage_events[OF eq s] obtain usage pre where
    pre: "only_created pre" and mem: "usage \<in> set (usages ?w')" and
    ev: "new_events w ?w' = pre @ Usage_saved usage
           # warning_events ev u (descriptions_generated usage) (description_quota (plans w (plan s)))"
    by blast
  have "Mail_attempted m \<in> set (warning_events ev u (descriptions_generated usage)
                                   (description_quota (plans w (plan s))))"
    using assms only_created_no_mail[OF pre] unfolding ev by simp
  then have "warning_events ev u (descriptions_generated usage)
               (description_quota (plans w (plan s)))
             = Mail_attempted m
                 # (if delivers ev m then [] else [Printed ''Failed to send quota warning email''])"
    by (auto simp: warning_events_def split: if_splits)
  then show ?thesis using ok pre mem ev by auto
qed

lemma invoice_event_finds:
  "get_subscription (inv_subscription invoice_event) (world_march n) = Inr sub_one"
  "inv_subscription invoice_event \<noteq> None" "inv_subscription invoice_event \<noteq> Some []"
  by (simp_all add: get_subscription_def invoice_event_def world_march_def sub_one_def)

lemma world_march_trace: "trace (world_march n) = []"
  by (simp add: world_march_def)

lemma failing_mail_fields: "EMAIL_ENABLED failing_mail" "\<not> delivers failing_mail m"
  by (simp_all add: failing_mail_def)

lemma world_march_last_consume_mail:
  "Mail_attempted (Quota_warning 1 5)
     \<in> set (new_events (world_march 4)
              (snd (increment_usage failing_mail mid_march mid_march 1 (world_march 4))))"
proof -
  have s: "subscription_of (world_march 4) (Suc 0) = Some sub_one"
    using world_march_subscription(1)[of 4] by simp
  have st: "status sub_one = ACTIVE \<or> status sub_one = TRIALING" by (simp add: sub_one_def)
  have q: "description_quota (plans (world_march 4) (plan sub_one)) = 5"
    by (rule world_march_subscription(2))
  note inc = increment_usage_found[OF s st mid_march_period mid_march_current
      mid_march_period mid_march_current, of failing_mail]
  have c: "descriptions_generated (usage_march 4) = 4" by (simp add: usage_march_def)
  let ?r = "(usage_march 4)\<lparr>descriptions_generated := 5\<rparr>"
  have w': "snd (increment_usage failing_mail mid_march mid_march (Suc 0) (world_march 4))
            = quota_warning failing_mail (Suc 0) ?r (save_usage ?r (world_march 4))"
    using inc q c by simp
  have s3: "subscription_of (save_usage ?r (world_march 4)) (Suc 0) = Some sub_one"
    using s by (simp add: subscription_of_def save_usage_fields)
  have p: "warning_due 5 5" by (simp add: warning_due_def percentage_def)
  show ?thesis
    using w' q p
    by (simp add: new_events_def quota_warning_trace[OF s3] save_usage_fields save_usage_trace
        world_march_trace warning_events_def failing_mail_fields)
qed

lemma world_march_deletion_mail:
  "Mail_attempted (Subscription_cancelled 1)
     \<in> set (new_events (world_march 4)
              (snd (handle_subscription_deleted failing_mail mid_march deletion_event (world_march 4))))"
  by (simp add: handle_subscription_deleted_found[OF deletion_event_finds] new_events_def
      send_guarded_trace save_subscription_fields world_march_trace failing_mail_fields)
     (simp add: sub_one_def)

lemma world_march_payment_mail:
  "Mail_attempted (Payment_failed 1)
     \<in> set (new_events (world_march 4)
              (snd (handle_payment_failed failing_mail invoice_event (world_march 4))))"
  by (simp add: handle_payment_failed_found[OF invoice_event_finds] new_events_def
      send_guarded_trace save_subscription_fields world_march_trace failing_mail_fields)
     (simp add: sub_one_def)

subsection \<open>Successful payments\<close>


text \<open>With at most one current record and a clock reading inside its period, the lookup
  returns a record, which is the one current record afterwards.\<close>

lemma get_or_create_current_ensures:
  assumes "inside_period now" "length (current_usages now u (usages w)) \<le> 1"
  shows "\<exists>r w1. get_or_create_current now u w = (Inr r, w1)
           \<and> subscriptions w1 = subscriptions w \<and> plans w1 = plans w
           \<and> current_usages now u (usages w1) = [r]
           \<and> (usages w1 = usages w
               \<or> (current_usages now u (usages w) = [] \<and> descriptions_generated r = 0
                  \<and> usages w1 = usages w @ [r]))"
proof (cases "current_usages now u (usages w)")
  case Nil
  from assms(1) obtain ps pe where p: "current_period now = Inr (ps, pe)"
    and le: "dt_le ps now" "dt_le now pe"
    by (auto simp: inside_period_def split: sum.splits)
  let ?r = "\<lparr>pk = next_pk w, user = u, descriptions_generated = 0, period_start = ps, period_end = pe\<rparr>"
  let ?w1 = "w\<lparr>usages := usages w @ [?r], next_pk := next_pk w + 1,
               trace := trace w @ [Usage_created ?r]\<rparr>"
  have g: "get_or_create_current now u w = (Inr ?r, ?w1)"
    by (rule get_or_create_created[OF p Nil])
  have "current_usages now u (usages ?w1) = [?r]"
    using Nil le by (simp add: current_usages_append)
  then show ?thesis using g Nil by (intro exI[of _ ?r] exI[of _ ?w1]) simp
next
  case (Cons r rs)
  with assms(2) have c: "current_usages now u (usages w) = [r]" by simp
  have "get_or_create_current now u w = (Inr r, w)"
    by (rule get_or_create_found[OF inside_period_defined[OF assms(1)] c])
  then show ?thesis using c by (intro exI[of _ r] exI[of _ w]) simp
qed

text \<open>Under the same conditions a second lookup at the same instant returns the same record
  and changes nothing.\<close>

lemma get_or_create_current_twice:
  assumes "inside_period now" "length (current_usages now u (usages w)) \<le> 1"
  shows "get_or_create_current now u (snd (get_or_create_current now u w))
           = (fst (get_or_create_current now u w), snd (get_or_create_current now u w))"
proof -
  from get_or_create_current_ensures[OF assms] obtain r w1 where
    g: "get_or_create_current now u w = (Inr r, w1)" and
    c: "current_usages now u (usages w1) = [r]"
    by blast
  have "get_or_create_current now u w1 = (Inr r, w1)"
    by (rule get_or_create_found[OF inside_period_defined[OF assms(1)] c])
  then show ?thesis using g by simp
qed





section \<open>Quota accounting\<close>



section \<open>The billing period\<close>

text \<open>
  Claim C7, as amended. For every valid clock reading \<open>now\<close> before December 9999, the
  period computed for a new usage record starts at the first instant of the calendar month
  of \<open>now\<close> (day 1, 00:00:00.000000) and ends at 23:59:59.000000 of the last day of that
  month, which is one second before the first instant of the following month; after
  December the following month is January of the next year. The period is a function of
  \<open>now\<close> alone.
\<close>

theorem current_period_month:
  assumes "valid_datetime now" "\<not> (year now = 9999 \<and> month now = 12)"
  shows "current_period now
           = Inr (first_instant (year now) (month now), last_second (year now) (month now))
       \<and> seconds_of (last_second (year now) (month now)) + 1
           = seconds_of (if month now = 12 then first_instant (year now + 1) 1
                         else first_instant (year now) (month now + 1))"
  using assms current_period_value seconds_month_end[of "year now" "month now"]
  by (simp add: valid_datetime_def)

theorem current_period_month_witness:
  "valid_datetime mid_december \<and> \<not> (year mid_december = 9999 \<and> month mid_december = 12)
   \<and> current_period mid_december
       = Inr (\<lparr>year = 2023, month = 12, day = 1, hour = 0, minute = 0, second = 0, microsecond = 0\<rparr>,
              \<lparr>year = 2023, month = 12, day = 31, hour = 23, minute = 59, second = 59, microsecond = 0\<rparr>)
   \<and> seconds_of \<lparr>year = 2023, month = 12, day = 31, hour = 23, minute = 59, second = 59, microsecond = 0\<rparr> + 1
       = seconds_of \<lparr>year = 2024, month = 1, day = 1, hour = 0, minute = 0, second = 0, microsecond = 0\<rparr>"
proof -
  have v: "valid_datetime mid_december"
    by (simp add: valid_datetime_def mid_december_def days_in_month_def)
  have n: "\<not> (year mid_december = 9999 \<and> month mid_december = 12)"
    by (simp add: mid_december_def)
  show ?thesis
    using v n current_period_month[OF v n]
    by (simp add: mid_december_def first_instant_def last_second_def days_in_month_def)
qed

text \<open>
  In December 9999 the following month is January 10000, which no datetime holds:
  \<^verbatim>\<open>replace(year=10000, month=1)\<close> raises ValueError, and no period is computed.
\<close>

theorem current_period_last_december: "current_period last_december = Inl ValueError"
  by (simp add: current_period_def replace_def valid_datetime_def days_in_month_def
      last_december_def)

section \<open>The current usage record\<close>

text \<open>
  Claim C6. Two calls of \<^verbatim>\<open>get_or_create_current\<close> at the same instant of a billing
  period should return the same record and leave one record for the period. The stored
  end of a period is 23:59:59.000000 of the last day of the month, so a clock reading in
  the last second of the month with a microsecond part above zero lies after every stored
  period of that month: at 2024-01-31 23:59:59.500000 the first call creates the record
  with primary key 1 for January, the lookup of the second call does not find it, and the
  second call creates the record with primary key 2 for the same period. Neither record is
  found by a lookup at that instant.
\<close>

theorem get_or_create_current_end_of_month:
  "fst (get_or_create_current end_of_january 1 world_empty) = Inr (usage_january 1 0)
   \<and> fst (get_or_create_current end_of_january 1
            (snd (get_or_create_current end_of_january 1 world_empty)))
       = Inr (usage_january 2 0)
   \<and> usages (snd (get_or_create_current end_of_january 1
                    (snd (get_or_create_current end_of_january 1 world_empty))))
       = [usage_january 1 0, usage_january 2 0]
   \<and> current_usages end_of_january 1 [usage_january 1 0, usage_january 2 0] = []"
  by (simp add: get_or_create_current_def current_period_def replace_def valid_datetime_def
      minus_one_second_def days_in_month_def end_of_january_def world_empty_def
      usage_january_def first_instant_def last_second_def current_usages_def dt_le_fields
      Let_def)

section \<open>The quota gate\<close>

text \<open>
  Claim C2. \<^verbatim>\<open>check_usage_quota\<close> should report the remaining quota as
  \<open>max 0 (quota - count)\<close>, never a negative number. It reports the difference as it is:
  for an ACTIVE subscription on a plan with quota 5 and a current record with count 7 it
  returns \<open>(False, -2)\<close>, where \<^verbatim>\<open>Usage.get_remaining_quota\<close> on the same record
  returns 0.
\<close>

theorem check_usage_quota_over_quota:
  "check_usage_quota mid_march 1 (world_march 7) = (Inr (False, Remaining (- 2)), world_march 7)
   \<and> get_remaining_quota (world_march 7) (usage_march 7) = Remaining 0"
proof -
  have "subscription_of (world_march 7) (Suc 0) = Some sub_one"
    by (simp add: subscription_of_def world_march_def sub_one_def)
  moreover have "get_or_create_current mid_march (Suc 0) (world_march 7) = (Inr (usage_march 7), world_march 7)"
    by (rule get_or_create_found[OF mid_march_period mid_march_current])
  ultimately show ?thesis
    by (simp add: check_usage_quota_def get_remaining_quota_def Let_def)
       (simp add: world_march_def sub_one_def plan_basic_def usage_march_def)
qed

section \<open>Deletion of a subscription\<close>

text \<open>
  Claim C4, as amended. A deletion event whose id selects exactly one subscription \<open>s\<close>
  (users having one subscription each) sets the status of \<open>s\<close> to CANCELED and its
  \<^verbatim>\<open>canceled_at\<close> to the processing time, whatever it held before, and changes no other
  row; the row is saved first, then, when the mail service is enabled, the cancellation
  mail is attempted (a failure is printed). Afterwards \<^verbatim>\<open>canceled_at\<close> is not null, and
  handling the same event again at a later time finds the subscription, leaves it CANCELED
  and sets \<^verbatim>\<open>canceled_at\<close> to that later time.
\<close>

theorem handle_subscription_deleted_cancels:
  assumes "get_subscription (sd_id data) w = Inr s"
    and "distinct (map sub_user (subscriptions w))"
    and "s' = s\<lparr>status := CANCELED, canceled_at := Some now\<rparr>"
    and "w' = snd (handle_subscription_deleted ev now data w)"
  shows "fst (handle_subscription_deleted ev now data w) = Inr (Some s')
       \<and> subscriptions w' = map (\<lambda>x. if x = s then s' else x) (subscriptions w)
       \<and> get_subscription (sd_id data) w' = Inr s'
       \<and> plans w' = plans w \<and> usages w' = usages w
       \<and> new_events w w'
           = Subscription_saved s'
             # (if EMAIL_ENABLED ev
                then Mail_attempted (Subscription_cancelled (sub_user s))
                     # (if delivers ev (Subscription_cancelled (sub_user s)) then []
                        else [Printed ''Failed to send cancellation email''])
                else [])
       \<and> fst (handle_subscription_deleted ev later data w')
           = Inr (Some (s\<lparr>status := CANCELED, canceled_at := Some later\<rparr>))"
proof -
  note mem = get_subscription_mem[OF assms(1)]
  let ?w1 = "save_subscription s' w"
  have su: "sub_user s' = sub_user s" "stripe_subscription_id s' = stripe_subscription_id s"
    by (simp_all add: assms(3))
  have w': "w' = (if EMAIL_ENABLED ev
       then send_guarded ev (Subscription_cancelled (sub_user s)) ''Failed to send cancellation email'' ?w1
       else ?w1)"
    unfolding assms(4) handle_subscription_deleted_found[OF assms(1)] assms(3) by simp
  have subs: "subscriptions w' = subscriptions ?w1"
    unfolding w' by (simp add: send_guarded_fields)
  have g: "get_subscription (sd_id data) w' = Inr s'"
    using get_subscription_save[OF assms(1,2) su] get_subscription_cong[OF subs] by simp
  have replay: "fst (handle_subscription_deleted ev later data w')
           = Inr (Some (s\<lparr>status := CANCELED, canceled_at := Some later\<rparr>))"
    unfolding handle_subscription_deleted_found[OF g] by (simp add: assms(3))
  have ev: "new_events w w'
           = Subscription_saved s'
             # (if EMAIL_ENABLED ev
                then Mail_attempted (Subscription_cancelled (sub_user s))
                     # (if delivers ev (Subscription_cancelled (sub_user s)) then []
                        else [Printed ''Failed to send cancellation email''])
                else [])"
    unfolding w' by (simp add: new_events_def send_guarded_trace save_subscription_fields)
  show ?thesis
    using g replay ev subs
    by (simp add: handle_subscription_deleted_found[OF assms(1)] assms(3)[symmetric]
        save_subscription_row[OF assms(2) mem(1) su(1)] w' send_guarded_fields
        save_subscription_fields)
qed

theorem handle_subscription_deleted_cancels_witness:
  "get_subscription (sd_id deletion_event) (world_march 4) = Inr sub_one
   \<and> distinct (map sub_user (subscriptions (world_march 4)))
   \<and> status sub_one = ACTIVE
   \<and> fst (handle_subscription_deleted failing_mail mid_march deletion_event (world_march 4))
       = Inr (Some (sub_one\<lparr>status := CANCELED, canceled_at := Some mid_march\<rparr>))
   \<and> subscriptions (snd (handle_subscription_deleted failing_mail mid_march deletion_event (world_march 4)))
       = [sub_one\<lparr>status := CANCELED, canceled_at := Some mid_march\<rparr>]
   \<and> new_events (world_march 4)
        (snd (handle_subscription_deleted failing_mail mid_march deletion_event (world_march 4)))
       = [Subscription_saved (sub_one\<lparr>status := CANCELED, canceled_at := Some mid_march\<rparr>),
          Mail_attempted (Subscription_cancelled 1),
          Printed ''Failed to send cancellation email'']
   \<and> fst (handle_subscription_deleted failing_mail end_of_january deletion_event
            (snd (handle_subscription_deleted failing_mail mid_march deletion_event (world_march 4))))
       = Inr (Some (sub_one\<lparr>status := CANCELED, canceled_at := Some end_of_january\<rparr>))"
proof -
  have h1: "get_subscription (sd_id deletion_event) (world_march 4) = Inr sub_one"
    by (rule deletion_event_finds)
  have h2: "distinct (map sub_user (subscriptions (world_march 4)))"
    by (simp add: world_march_def)
  have e: "EMAIL_ENABLED failing_mail" "\<not> delivers failing_mail m" for m
    by (simp_all add: failing_mail_def)
  have u: "sub_user sub_one = 1" "status sub_one = ACTIVE" by (simp_all add: sub_one_def)
  have l: "subscriptions (world_march 4) = [sub_one]" by (simp add: world_march_def)
  show ?thesis
    using h1 h2 handle_subscription_deleted_cancels[OF h1 h2 refl refl,
        of failing_mail mid_march end_of_january]
    by (simp add: e u l)
qed

text \<open>
  The claim has an already set \<^verbatim>\<open>canceled_at\<close> left unchanged. The handler assigns
  \<^verbatim>\<open>timezone.now()\<close> without looking at the field: a subscription canceled on
  2023-12-10 whose deletion event is handled on 2024-03-15 has its \<^verbatim>\<open>canceled_at\<close> moved
  to 2024-03-15.
\<close>

theorem handle_subscription_deleted_overwrites:
  "canceled_at sub_canceled = Some mid_december
   \<and> subscriptions (snd (handle_subscription_deleted failing_mail mid_march deletion_event world_canceled))
       = [sub_canceled\<lparr>canceled_at := Some mid_march\<rparr>]
   \<and> canceled_at (sub_canceled\<lparr>canceled_at := Some mid_march\<rparr>) \<noteq> canceled_at sub_canceled"
  by (simp add: handle_subscription_deleted_def get_subscription_def deletion_event_def
      world_canceled_def sub_canceled_def sub_one_def save_subscription_def send_guarded_def
      failing_mail_def mid_march_def mid_december_def Let_def)

section \<open>Redelivery of a subscription update\<close>

text \<open>
  Claim C5. Handling the same SubscriptionUpdated payload a second time leaves the three
  tables as the first handling left them: every field of every subscription (status,
  period bounds, \<^verbatim>\<open>cancel_at_period_end\<close>, \<^verbatim>\<open>canceled_at\<close> and the rest), every plan and
  every usage record. This holds for every payload and every world, also when no
  subscription has the id or a timestamp of the payload cannot be converted.
\<close>

theorem handle_subscription_updated_idempotent:
  "persistent (snd (handle_subscription_updated data (snd (handle_subscription_updated data w))))
     = persistent (snd (handle_subscription_updated data w))"
proof (cases "get_subscription (sd_id data) w")
  case (Inl e)
  then show ?thesis by (simp add: handle_subscription_updated_missing)
next
  case (Inr s)
  note found = handle_subscription_updated_found[OF Inr]
  show ?thesis
  proof (cases "updated_subscription data s")
    case (Inl e)
    then have "snd (handle_subscription_updated data w) = w" by (simp add: found)
    then show ?thesis by simp
  next
    case upd: (Inr s')
    let ?w1 = "save_subscription s' w"
    have w1: "snd (handle_subscription_updated data w) = ?w1" by (simp add: found upd)
    note again = updated_subscription_again[OF upd]
    show ?thesis
    proof (cases "get_subscription (sd_id data) ?w1")
      case (Inl e)
      then show ?thesis by (simp add: w1 handle_subscription_updated_missing)
    next
      case (Inr x)
      have sid: "Some (stripe_subscription_id s') = sd_id data"
        using get_subscription_mem(2)[OF \<open>get_subscription (sd_id data) w = Inr s\<close>] again(3) by simp
      have x: "x = s'"
        by (rule saved_row_found[OF get_subscription_mem(1)[OF \<open>get_subscription (sd_id data) w = Inr s\<close>]
              again(2) sid Inr])
      have "snd (handle_subscription_updated data ?w1) = save_subscription s' ?w1"
        using handle_subscription_updated_found[OF Inr] x again(1) by simp
      then show ?thesis
        by (simp add: w1 persistent_def save_subscription_twice save_subscription_fields)
    qed
  qed
qed

section \<open>What a successful consume changes\<close>



section \<open>Quota warnings\<close>



section \<open>Failure of a notification\<close>

text \<open>
  Claim C8. For \<^verbatim>\<open>increment_usage\<close>, \<^verbatim>\<open>handle_subscription_deleted\<close> and
  \<^verbatim>\<open>handle_payment_failed\<close>: what the operation returns and what it leaves in the three
  tables do not depend on whether the mail service delivers or raises (\<open>d\<close> is any other
  behaviour of the mail service), so a failure of the delivery is neither passed to the
  caller nor able to undo a change. And whenever one of them attempts a mail, the operation
  has succeeded, the row it changed (the incremented usage record, the subscription set to
  CANCELED or PAST_DUE) is in the table afterwards, the write of that row comes directly
  before the attempt in the order of events, and a delivery that fails is followed by the
  line the handler prints and by nothing else.
\<close>

theorem notification_failure_isolated:
  "fst (increment_usage (ev\<lparr>delivers := d\<rparr>) now1 now2 u w) = fst (increment_usage ev now1 now2 u w)
   \<and> persistent (snd (increment_usage (ev\<lparr>delivers := d\<rparr>) now1 now2 u w))
       = persistent (snd (increment_usage ev now1 now2 u w))
   \<and> fst (handle_subscription_deleted (ev\<lparr>delivers := d\<rparr>) now sdata w)
       = fst (handle_subscription_deleted ev now sdata w)
   \<and> persistent (snd (handle_subscription_deleted (ev\<lparr>delivers := d\<rparr>) now sdata w))
       = persistent (snd (handle_subscription_deleted ev now sdata w))
   \<and> fst (handle_payment_failed (ev\<lparr>delivers := d\<rparr>) idata w) = fst (handle_payment_failed ev idata w)
   \<and> persistent (snd (handle_payment_failed (ev\<lparr>delivers := d\<rparr>) idata w))
       = persistent (snd (handle_payment_failed ev idata w))
   \<and> (\<forall>m. Mail_attempted m \<in> set (new_events w (snd (increment_usage ev now1 now2 u w)))
        \<longrightarrow> fst (increment_usage ev now1 now2 u w) = Inr True
            \<and> (\<exists>usage pre. only_created pre
                  \<and> usage \<in> set (usages (snd (increment_usage ev now1 now2 u w)))
                  \<and> new_events w (snd (increment_usage ev now1 now2 u w))
                      = pre @ Usage_saved usage # Mail_attempted m
                          # (if delivers ev m then []
                             else [Printed ''Failed to send quota warning email''])))
   \<and> (\<forall>m. Mail_attempted m \<in> set (new_events w (snd (handle_subscription_deleted ev now sdata w)))
        \<longrightarrow> (\<exists>s'. fst (handle_subscription_deleted ev now sdata w) = Inr (Some s')
                  \<and> status s' = CANCELED
                  \<and> s' \<in> set (subscriptions (snd (handle_subscription_deleted ev now sdata w)))
                  \<and> new_events w (snd (handle_subscription_deleted ev now sdata w))
                      = Subscription_saved s' # Mail_attempted m
                          # (if delivers ev m then []
                             else [Printed ''Failed to send cancellation email''])))
   \<and> (\<forall>m. Mail_attempted m \<in> set (new_events w (snd (handle_payment_failed ev idata w)))
        \<longrightarrow> (\<exists>s'. fst (handle_payment_failed ev idata w) = Inr (Some s')
                  \<and> status s' = PAST_DUE
                  \<and> s' \<in> set (subscriptions (snd (handle_payment_failed ev idata w)))
                  \<and> new_events w (snd (handle_payment_failed ev idata w))
                      = Subscription_saved s' # Mail_attempted m
                          # (if delivers ev m then []
                             else [Printed ''Failed to send payment failure email''])))"
  by (intro conjI allI impI increment_usage_delivery handle_subscription_deleted_delivery
      handle_payment_failed_delivery handle_subscription_deleted_order handle_payment_failed_order
      conjunct1[OF increment_usage_order] conjunct2[OF increment_usage_order])

theorem notification_failure_isolated_witness:
  "Mail_attempted (Quota_warning 1 5)
     \<in> set (new_events (world_march 4)
              (snd (increment_usage failing_mail mid_march mid_march 1 (world_march 4))))
   \<and> fst (increment_usage failing_mail mid_march mid_march 1 (world_march 4)) = Inr True
   \<and> usages (snd (increment_usage failing_mail mid_march mid_march 1 (world_march 4)))
       = [usage_march 5]
   \<and> Mail_attempted (Subscription_cancelled 1)
     \<in> set (new_events (world_march 4)
              (snd (handle_subscription_deleted failing_mail mid_march deletion_event (world_march 4))))
   \<and> (\<exists>s'. fst (handle_subscription_deleted failing_mail mid_march deletion_event (world_march 4))
              = Inr (Some s')
          \<and> status s' = CANCELED
          \<and> s' \<in> set (subscriptions
                (snd (handle_subscription_deleted failing_mail mid_march deletion_event (world_march 4)))))
   \<and> Mail_attempted (Payment_failed 1)
     \<in> set (new_events (world_march 4)
              (snd (handle_payment_failed failing_mail invoice_event (world_march 4))))
   \<and> (\<exists>s'. fst (handle_payment_failed failing_mail invoice_event (world_march 4)) = Inr (Some s')
          \<and> status s' = PAST_DUE
          \<and> s' \<in> set (subscriptions
                (snd (handle_payment_failed failing_mail invoice_event (world_march 4)))))"
proof -
  note iso = notification_failure_isolated[where ev = failing_mail and ?now1.0 = mid_march
      and ?now2.0 = mid_march and u = 1 and w = "world_march 4" and now = mid_march
      and sdata = deletion_event and idata = invoice_event]
  have a: "fst (increment_usage failing_mail mid_march mid_march 1 (world_march 4)) = Inr True"
    using iso world_march_last_consume_mail by blast
  have b: "\<exists>s'. fst (handle_subscription_deleted failing_mail mid_march deletion_event (world_march 4))
              = Inr (Some s')
          \<and> status s' = CANCELED
          \<and> s' \<in> set (subscriptions
                (snd (handle_subscription_deleted failing_mail mid_march deletion_event (world_march 4))))"
    using iso world_march_deletion_mail by blast
  have c: "\<exists>s'. fst (handle_payment_failed failing_mail invoice_event (world_march 4)) = Inr (Some s')
          \<and> status s' = PAST_DUE
          \<and> s' \<in> set (subscriptions
                (snd (handle_payment_failed failing_mail invoice_event (world_march 4))))"
    using iso world_march_payment_mail by blast
  have u: "usages (snd (increment_usage failing_mail mid_march mid_march 1 (world_march 4)))
       = [usage_march 5]"
    using world_march_consume(2)[of 4 failing_mail] by simp
  show ?thesis
    using a b c u world_march_last_consume_mail world_march_deletion_mail world_march_payment_mail
    by blast
qed

section \<open>A successful payment\<close>



end
